theory Spec2Isabelle
  imports Complex_Main "HOL-Library.Sublist"
begin

section \<open>Statement decoding pipeline of \<^verbatim>\<open>gmail_fetcher/pdf_parser.py\<close>\<close>

text \<open>
  Text is a list of 8-bit characters, read as the code points 0..255 of a Python
  \<^verbatim>\<open>str\<close>. On this range the Unicode-aware classes that Python uses
  (\<^verbatim>\<open>\d\<close>, \<^verbatim>\<open>\s\<close>, \<^verbatim>\<open>str.strip\<close>, the digits of
  \<^verbatim>\<open>float\<close> and \<^verbatim>\<open>int\<close>) are exactly the sets written out below.
  A \<^verbatim>\<open>datetime\<close> produced by \<^verbatim>\<open>strptime\<close> from a date-only format
  has time 00:00:00 and is modelled by its calendar date.
\<close>

subsection \<open>Python string operations\<close>

definition is_digit :: "char \<Rightarrow> bool" where
  "is_digit c = (c \<in> set ''0123456789'')"

text \<open>\<^verbatim>\<open>str.isspace\<close> / \<^verbatim>\<open>\s\<close> on code points below 256.\<close>

definition is_space :: "char \<Rightarrow> bool" where
  "is_space c = (c \<in> set [CHR 0x09, CHR 0x0A, CHR 0x0B, CHR 0x0C, CHR 0x0D,
                            CHR 0x1C, CHR 0x1D, CHR 0x1E, CHR 0x1F, CHR 0x20,
                            CHR 0x85, CHR 0xA0])"

definition strip :: "string \<Rightarrow> string" where
  "strip s = rev (dropWhile is_space (rev (dropWhile is_space s)))"

text \<open>\<^verbatim>\<open>s.replace(c, "")\<close> for a one-character \<^verbatim>\<open>c\<close>.\<close>

definition remove_char :: "char \<Rightarrow> string \<Rightarrow> string" where
  "remove_char c s = filter (\<lambda>x. x \<noteq> c) s"

text \<open>\<^verbatim>\<open>sub in s\<close>.\<close>

fun contains :: "string \<Rightarrow> string \<Rightarrow> bool" where
  "contains sub [] = (sub = [])"
| "contains sub (c # cs) = (prefix sub (c # cs) \<or> contains sub cs)"

text \<open>\<^verbatim>\<open>s.split("\n")\<close>: never empty, the pieces hold no newline.\<close>

fun split_nl :: "string \<Rightarrow> string list" where
  "split_nl [] = [[]]"
| "split_nl (c # cs) =
     (if c = CHR 0x0A then [] # split_nl cs
      else (case split_nl cs of
              [] \<Rightarrow> [[c]]
            | l # ls \<Rightarrow> (c # l) # ls))"

definition digit_val :: "char \<Rightarrow> nat" where
  "digit_val c = of_char c - 48"

definition nat_of_digits :: "string \<Rightarrow> nat" where
  "nat_of_digits ds = foldl (\<lambda>a c. 10 * a + digit_val c) 0 ds"

subsection \<open>Backtracking regular expressions (\<^verbatim>\<open>re.match\<close>, \<^verbatim>\<open>re.search\<close>)\<close>

text \<open>
  The patterns of the module are sequences of repeated character classes, capture groups
  that are not nested, and \<^verbatim>\<open>$\<close>. An item \<open>Rep cls lo hi greedy\<close> repeats the class
  between \<open>lo\<close> and \<open>hi\<close> times (\<open>None\<close>: unbounded); greedy repetition tries the
  longest run first, lazy repetition the shortest, as Python's backtracking matcher does.
  \<open>rmatch\<close> returns the text consumed by every \<open>Rep\<close>, in order, and the rest.
\<close>

datatype item = Rep "char \<Rightarrow> bool" nat "nat option" bool | Eos | Open | Close

fun hi_left :: "nat option \<Rightarrow> bool" where
  "hi_left None = True"
| "hi_left (Some h) = (0 < h)"

function rmatch :: "item list \<Rightarrow> string \<Rightarrow> string \<Rightarrow> (string list \<times> string) option" where
  "rmatch [] s acc = Some ([], s)"
| "rmatch (Eos # r) s acc = (if s = [] \<or> s = [CHR 0x0A] then rmatch r s [] else None)"
| "rmatch (Open # r) s acc = rmatch r s []"
| "rmatch (Close # r) s acc = rmatch r s []"
| "rmatch (Rep cls lo hi g # r) [] acc =
     (if lo = 0 then map_option (\<lambda>(segs, rest). (acc # segs, rest)) (rmatch r [] []) else None)"
| "rmatch (Rep cls lo hi g # r) (c # cs) acc =
     (if cls c \<and> hi_left hi then
        (if 0 < lo then rmatch (Rep cls (lo - 1) (map_option (\<lambda>h. h - 1) hi) g # r) cs (acc @ [c])
         else if g then
           (case rmatch (Rep cls 0 (map_option (\<lambda>h. h - 1) hi) g # r) cs (acc @ [c]) of
              Some x \<Rightarrow> Some x
            | None \<Rightarrow> map_option (\<lambda>(segs, rest). (acc # segs, rest)) (rmatch r (c # cs) []))
         else
           (case map_option (\<lambda>(segs, rest). (acc # segs, rest)) (rmatch r (c # cs) []) of
              Some x \<Rightarrow> Some x
            | None \<Rightarrow> rmatch (Rep cls 0 (map_option (\<lambda>h. h - 1) hi) g # r) cs (acc @ [c])))
      else if lo = 0 then map_option (\<lambda>(segs, rest). (acc # segs, rest)) (rmatch r (c # cs) [])
      else None)"
  by pat_completeness auto
termination
  by (relation "measures [\<lambda>(r, s, acc). length s, \<lambda>(r, s, acc). length r]") auto

text \<open>The capture groups, in order, from the items and the text each \<open>Rep\<close> consumed.\<close>

fun groups :: "item list \<Rightarrow> string list \<Rightarrow> string option \<Rightarrow> string list" where
  "groups [] segs cur = []"
| "groups (Open # r) segs cur = groups r segs (Some [])"
| "groups (Close # r) segs cur =
     (case cur of Some g \<Rightarrow> g # groups r segs None | None \<Rightarrow> groups r segs None)"
| "groups (Eos # r) segs cur = groups r segs cur"
| "groups (Rep cls lo hi g # r) [] cur = []"
| "groups (Rep cls lo hi g # r) (seg # segs) cur = groups r segs (map_option (\<lambda>g. g @ seg) cur)"

text \<open>\<^verbatim>\<open>re.match\<close>: anchored at the start; the result is the list of groups.\<close>

definition re_match :: "item list \<Rightarrow> string \<Rightarrow> string list option" where
  "re_match p s = map_option (\<lambda>(segs, rest). groups p segs None) (rmatch p s [])"

text \<open>\<^verbatim>\<open>re.search\<close>: the leftmost start position at which the pattern matches.\<close>

fun re_search :: "item list \<Rightarrow> string \<Rightarrow> string list option" where
  "re_search p [] = re_match p []"
| "re_search p (c # cs) =
     (case re_match p (c # cs) of Some gs \<Rightarrow> Some gs | None \<Rightarrow> re_search p cs)"

definition one :: "(char \<Rightarrow> bool) \<Rightarrow> item" where
  "one cls = Rep cls 1 (Some 1) True"

definition lit :: "string \<Rightarrow> item list" where
  "lit s = map (\<lambda>c. one (\<lambda>x. x = c)) s"

definition is_amt :: "char \<Rightarrow> bool" where
  "is_amt c = (is_digit c \<or> c = CHR '','' \<or> c = CHR ''.'')"

definition not_nl :: "char \<Rightarrow> bool" where
  "not_nl c = (c \<noteq> CHR 0x0A)"

text \<open>\<^verbatim>\<open>\d{2}/\d{2}/\d{4}\<close> and \<^verbatim>\<open>\d{2}-\d{2}-\d{4}\<close>.\<close>

definition date_items :: "char \<Rightarrow> item list" where
  "date_items sep =
     [Rep is_digit 2 (Some 2) True, one (\<lambda>x. x = sep),
      Rep is_digit 2 (Some 2) True, one (\<lambda>x. x = sep),
      Rep is_digit 4 (Some 4) True]"

text \<open>\<^verbatim>\<open>(\d{2}/\d{2}/\d{4})\s+(\d{2}/\d{2}/\d{4})\s+(.+?)\s+\$?([\d,.]+)\s*$\<close>\<close>

definition tx_re :: "item list" where
  "tx_re =
     [Open] @ date_items CHR ''/'' @ [Close, Rep is_space 1 None True] @
     [Open] @ date_items CHR ''/'' @ [Close, Rep is_space 1 None True] @
     [Open, Rep not_nl 1 None False, Close, Rep is_space 1 None True,
      Rep (\<lambda>x. x = CHR ''$'') 0 (Some 1) True,
      Open, Rep is_amt 1 None True, Close, Rep is_space 0 None True, Eos]"

text \<open>\<^verbatim>\<open>Bill Period:\s*(\d{2}-\d{2}-\d{4})\s*-\s*(\d{2}-\d{2}-\d{4})\<close>\<close>

definition bill_period_re :: "item list" where
  "bill_period_re =
     lit ''Bill Period:'' @ [Rep is_space 0 None True] @
     [Open] @ date_items CHR ''-'' @ [Close, Rep is_space 0 None True, one (\<lambda>x. x = CHR ''-''),
      Rep is_space 0 None True] @
     [Open] @ date_items CHR ''-'' @ [Close]"

text \<open>\<^verbatim>\<open>Previous Balance\s*\$?([\d,.]+)\<close>\<close>

definition prev_balance_re :: "item list" where
  "prev_balance_re =
     lit ''Previous Balance'' @
     [Rep is_space 0 None True, Rep (\<lambda>x. x = CHR ''$'') 0 (Some 1) True,
      Open, Rep is_amt 1 None True, Close]"

text \<open>\<^verbatim>\<open>New Balance[^\$]*\$?([\d,.]+)\<close>\<close>

definition new_balance_re :: "item list" where
  "new_balance_re =
     lit ''New Balance'' @
     [Rep (\<lambda>x. x \<noteq> CHR ''$'') 0 None True, Rep (\<lambda>x. x = CHR ''$'') 0 (Some 1) True,
      Open, Rep is_amt 1 None True, Close]"

subsection \<open>\<^verbatim>\<open>float(str)\<close>\<close>

text \<open>
  A finite Python float is modelled by the exact decimal value of the literal it was
  read from (Python rounds that value to the nearest double, monotonically and keeping
  0); a literal at or beyond the midpoint between the largest double and \<open>2 ^ 1024\<close>
  gives an infinity. \<open>None\<close> stands for \<^verbatim>\<open>ValueError\<close>. The grammar is the one of
  the language reference: optional sign, then \<^verbatim>\<open>inf\<close>, \<^verbatim>\<open>infinity\<close>,
  \<^verbatim>\<open>nan\<close> in any case, or digits with single underscores between them, an optional
  point and an optional exponent.

  Whitespace around the literal is ignored, but not the same whitespace as
  \<^verbatim>\<open>str.strip\<close>: \<^verbatim>\<open>float\<close> turns the Unicode spaces above U+007E (here U+0085
  and U+00A0) into blanks and then drops ASCII whitespace only, so the separators
  U+001C to U+001F stay and make the literal invalid.
\<close>

definition is_float_space :: "char \<Rightarrow> bool" where
  "is_float_space c = (c \<in> set [CHR 0x09, CHR 0x0A, CHR 0x0B, CHR 0x0C, CHR 0x0D, CHR 0x20,
                                  CHR 0x85, CHR 0xA0])"

definition float_strip :: "string \<Rightarrow> string" where
  "float_strip s = rev (dropWhile is_float_space (rev (dropWhile is_float_space s)))"

datatype pyfloat = Fin rat | PInf | NInf | NaN

fun dp :: "string \<Rightarrow> string \<times> string" where
  "dp [] = ([], [])"
| "dp (c # cs) =
     (if is_digit c then apfst ((#) c) (dp cs)
      else if c = CHR ''_'' \<and> cs \<noteq> [] \<and> is_digit (hd cs) then dp cs
      else ([], c # cs))"

definition digitpart :: "string \<Rightarrow> (string \<times> string) option" where
  "digitpart s = (case s of [] \<Rightarrow> None | c # cs \<Rightarrow> if is_digit c then Some (dp s) else None)"

definition take_sign :: "string \<Rightarrow> bool \<times> string" where
  "take_sign s =
     (case s of
        [] \<Rightarrow> (False, [])
      | c # r \<Rightarrow> if c = CHR ''-'' then (True, r) else if c = CHR ''+'' then (False, r) else (False, s))"

text \<open>\<^verbatim>\<open>[digitpart] "." digitpart | digitpart ["."]\<close>: integer digits, fraction digits, rest.\<close>

definition number :: "string \<Rightarrow> (string \<times> string \<times> string) option" where
  "number s =
     (case digitpart s of
        Some (ip, r) \<Rightarrow>
          (case r of
             [] \<Rightarrow> Some (ip, [], [])
           | c # r2 \<Rightarrow>
               if c = CHR ''.'' then
                 (case digitpart r2 of
                    Some (fp, r3) \<Rightarrow> Some (ip, fp, r3)
                  | None \<Rightarrow> Some (ip, [], r2))
               else Some (ip, [], r))
      | None \<Rightarrow>
          (case s of
             [] \<Rightarrow> None
           | c # r2 \<Rightarrow>
               if c = CHR ''.'' then
                 (case digitpart r2 of
                    Some (fp, r3) \<Rightarrow> Some ([], fp, r3)
                  | None \<Rightarrow> None)
               else None))"

text \<open>The exponent must end the string: \<^verbatim>\<open>("e" | "E") [sign] digitpart\<close>, or nothing.\<close>

definition exponent :: "string \<Rightarrow> int option" where
  "exponent s =
     (case s of
        [] \<Rightarrow> Some 0
      | c # r \<Rightarrow>
          if c = CHR ''e'' \<or> c = CHR ''E'' then
            (case take_sign r of
               (neg, r2) \<Rightarrow>
                 (case digitpart r2 of
                    Some (ds, r3) \<Rightarrow>
                      if r3 = [] then Some (if neg then - int (nat_of_digits ds) else int (nat_of_digits ds))
                      else None
                  | None \<Rightarrow> None))
          else None)"

definition ci_eq :: "string \<Rightarrow> (char \<times> char) list \<Rightarrow> bool" where
  "ci_eq s kw = list_all2 (\<lambda>c (l, u). c = l \<or> c = u) s kw"

definition scale10 :: "rat \<Rightarrow> int \<Rightarrow> rat" where
  "scale10 m k = (if 0 \<le> k then m * 10 ^ nat k else m / 10 ^ nat (- k))"

text \<open>The sign and the magnitude of a literal, as a float.\<close>

definition round_float :: "bool \<Rightarrow> rat \<Rightarrow> pyfloat" where
  "round_float neg m =
     (if 2 ^ 1024 - 2 ^ 970 \<le> m then (if neg then NInf else PInf)
      else Fin (if neg then - m else m))"

definition float_of_str :: "string \<Rightarrow> pyfloat option" where
  "float_of_str s =
     (case take_sign (float_strip s) of
        (neg, u) \<Rightarrow>
          if ci_eq u (zip ''inf'' ''INF'') \<or> ci_eq u (zip ''infinity'' ''INFINITY'')
          then Some (if neg then NInf else PInf)
          else if ci_eq u (zip ''nan'' ''NAN'') then Some NaN
          else
            (case number u of
               None \<Rightarrow> None
             | Some (ip, fp, r) \<Rightarrow>
                 (case exponent r of
                    None \<Rightarrow> None
                  | Some e \<Rightarrow>
                      Some (round_float neg
                              (scale10 (of_nat (nat_of_digits (ip @ fp)))
                                 (e - int (length fp)))))))"

text \<open>\<^verbatim>\<open>x >= 0\<close> on floats; false for \<^verbatim>\<open>nan\<close>.\<close>

fun nonneg :: "pyfloat \<Rightarrow> bool" where
  "nonneg (Fin r) = (0 \<le> r)"
| "nonneg PInf = True"
| "nonneg NInf = False"
| "nonneg NaN = False"

subsection \<open>\<^verbatim>\<open>datetime.strptime\<close>\<close>

record date =
  year :: nat
  month :: nat
  day :: nat

definition leap :: "nat \<Rightarrow> bool" where
  "leap y = (y mod 4 = 0 \<and> (y mod 100 \<noteq> 0 \<or> y mod 400 = 0))"

definition days_in_month :: "nat \<Rightarrow> nat \<Rightarrow> nat" where
  "days_in_month y m =
     (if m = 2 then (if leap y then 29 else 28)
      else if m = 4 \<or> m = 6 \<or> m = 9 \<or> m = 11 then 30 else 31)"

definition valid_date :: "date \<Rightarrow> bool" where
  "valid_date d =
     (1 \<le> year d \<and> year d \<le> 9999 \<and> 1 \<le> month d \<and> month d \<le> 12 \<and>
      1 \<le> day d \<and> day d \<le> days_in_month (year d) (month d))"

text \<open>
  \<^verbatim>\<open>strptime\<close> turns the format into a regular expression with one alternation per
  directive and matches it at the start of the string:
  \<^verbatim>\<open>%m\<close> is \<^verbatim>\<open>1[0-2]|0[1-9]|[1-9]\<close>,
  \<^verbatim>\<open>%d\<close> is \<^verbatim>\<open>3[0-1]|[1-2]\d|0[1-9]|[1-9]| [1-9]\<close>,
  \<^verbatim>\<open>%Y\<close> is \<^verbatim>\<open>\d\d\d\d\<close>.
  \<open>alts\<close> lists what a directive can read, in the order the alternation is tried.
\<close>

datatype directive = Dm | Dd | DY | Dlit char

definition in_range :: "char \<Rightarrow> char \<Rightarrow> char \<Rightarrow> bool" where
  "in_range lo hi c = ((of_char lo :: nat) \<le> of_char c \<and> (of_char c :: nat) \<le> of_char hi)"

fun two :: "(char \<Rightarrow> bool) \<Rightarrow> (char \<Rightarrow> bool) \<Rightarrow> string \<Rightarrow> (nat \<times> string) list" where
  "two p q (a # b # r) = (if p a \<and> q b then [(nat_of_digits [a, b], r)] else [])"
| "two p q s = []"

fun single :: "(char \<Rightarrow> bool) \<Rightarrow> string \<Rightarrow> (nat \<times> string) list" where
  "single p (a # r) = (if p a then [(digit_val a, r)] else [])"
| "single p [] = []"

fun alts :: "directive \<Rightarrow> string \<Rightarrow> (nat \<times> string) list" where
  "alts Dm s =
     two (\<lambda>c. c = CHR ''1'') (in_range CHR ''0'' CHR ''2'') s @
     two (\<lambda>c. c = CHR ''0'') (in_range CHR ''1'' CHR ''9'') s @
     single (in_range CHR ''1'' CHR ''9'') s"
| "alts Dd s =
     two (\<lambda>c. c = CHR ''3'') (in_range CHR ''0'' CHR ''1'') s @
     two (in_range CHR ''1'' CHR ''2'') is_digit s @
     two (\<lambda>c. c = CHR ''0'') (in_range CHR ''1'' CHR ''9'') s @
     single (in_range CHR ''1'' CHR ''9'') s @
     (case s of [] \<Rightarrow> [] | a # r \<Rightarrow> if a = CHR '' '' then single (in_range CHR ''1'' CHR ''9'') r else [])"
| "alts DY s =
     (if 4 \<le> length s \<and> list_all is_digit (take 4 s) then [(nat_of_digits (take 4 s), drop 4 s)]
      else [])"
| "alts (Dlit c) s = (case s of [] \<Rightarrow> [] | a # r \<Rightarrow> if a = c then [(0, r)] else [])"

fun store :: "directive \<Rightarrow> nat \<Rightarrow> date \<Rightarrow> date" where
  "store Dm n d = d\<lparr>month := n\<rparr>"
| "store Dd n d = d\<lparr>day := n\<rparr>"
| "store DY n d = d\<lparr>year := n\<rparr>"
| "store (Dlit c) n d = d"

text \<open>Every way the format's expression matches a prefix, in the matcher's order.\<close>

fun strp_all :: "directive list \<Rightarrow> string \<Rightarrow> date \<Rightarrow> (date \<times> string) list" where
  "strp_all [] s d = [(d, s)]"
| "strp_all (f # fs) s d = concat (map (\<lambda>(n, r). strp_all fs r (store f n d)) (alts f s))"

text \<open>
  The first match is taken; text left behind it, or a date that does not exist, is a
  \<^verbatim>\<open>ValueError\<close> (\<open>None\<close>).
\<close>

definition strptime :: "string \<Rightarrow> directive list \<Rightarrow> date option" where
  "strptime s fmt =
     (case strp_all fmt s \<lparr>year = 1900, month = 1, day = 1\<rparr> of
        [] \<Rightarrow> None
      | (d, r) # _ \<Rightarrow> if r = [] \<and> valid_date d then Some d else None)"

text \<open>\<^verbatim>\<open>"%m/%d/%Y"\<close> and \<^verbatim>\<open>"%d-%m-%Y"\<close>.\<close>

definition fmt_mdY :: "directive list" where
  "fmt_mdY = [Dm, Dlit CHR ''/'', Dd, Dlit CHR ''/'', DY]"

definition fmt_dmY :: "directive list" where
  "fmt_dmY = [Dd, Dlit CHR ''-'', Dm, Dlit CHR ''-'', DY]"

subsection \<open>The data model\<close>

datatype error = ValueError | LibraryError string

record transaction =
  posted_date :: date
  transaction_date :: date
  description :: string
  amount :: pyfloat
  transaction_type :: string

record statement_summary =
  bill_period_start :: "date option"
  bill_period_end :: "date option"
  previous_balance :: "pyfloat option"
  new_balance :: "pyfloat option"
  payment_due_date :: "date option"
  minimum_payment :: "pyfloat option"
  payments :: "pyfloat option"
  purchases :: "pyfloat option"

definition empty_summary :: statement_summary where
  "empty_summary =
     \<lparr>bill_period_start = None, bill_period_end = None, previous_balance = None,
      new_balance = None, payment_due_date = None, minimum_payment = None,
      payments = None, purchases = None\<rparr>"

subsection \<open>\<^verbatim>\<open>parse_date\<close> and \<^verbatim>\<open>parse_amount\<close>\<close>

text \<open>\<^verbatim>\<open>parse_date\<close> catches the \<^verbatim>\<open>ValueError\<close> and returns \<^verbatim>\<open>None\<close>.\<close>

definition parse_date :: "string \<Rightarrow> date option" where
  "parse_date date_str = strptime (strip date_str) fmt_mdY"

text \<open>\<^verbatim>\<open>parse_amount\<close> lets the \<^verbatim>\<open>ValueError\<close> of \<^verbatim>\<open>float\<close> escape.\<close>

definition parse_amount :: "string \<Rightarrow> error + pyfloat" where
  "parse_amount amount_str =
     (let cleaned = strip (remove_char CHR '','' (remove_char CHR ''$'' amount_str));
          cleaned2 = (if prefix ''('' cleaned \<and> suffix '')'' cleaned
                      then ''-'' @ butlast (tl cleaned) else cleaned)
      in case float_of_str cleaned2 of None \<Rightarrow> Inl ValueError | Some v \<Rightarrow> Inr v)"

subsection \<open>\<^verbatim>\<open>parse_transactions\<close>: the summary of the first page\<close>

text \<open>
  The bill period: both dates are read inside one \<^verbatim>\<open>try\<close>; the start is assigned
  before the end is read, and a \<^verbatim>\<open>ValueError\<close> of either is swallowed.
\<close>

definition bill_period :: "string \<Rightarrow> statement_summary \<Rightarrow> statement_summary" where
  "bill_period first_page summary =
     (case re_search bill_period_re first_page of
        None \<Rightarrow> summary
      | Some gs \<Rightarrow>
          (case strptime (gs ! 0) fmt_dmY of
             None \<Rightarrow> summary
           | Some d1 \<Rightarrow>
               (case strptime (gs ! 1) fmt_dmY of
                  None \<Rightarrow> summary\<lparr>bill_period_start := Some d1\<rparr>
                | Some d2 \<Rightarrow> summary\<lparr>bill_period_start := Some d1, bill_period_end := Some d2\<rparr>)))"

definition prev_balance :: "string \<Rightarrow> statement_summary \<Rightarrow> error + statement_summary" where
  "prev_balance first_page summary =
     (case re_search prev_balance_re first_page of
        None \<Rightarrow> Inr summary
      | Some gs \<Rightarrow>
          (case parse_amount (gs ! 0) of
             Inl e \<Rightarrow> Inl e
           | Inr v \<Rightarrow> Inr (summary\<lparr>previous_balance := Some v\<rparr>)))"

definition new_balance_step :: "string \<Rightarrow> statement_summary \<Rightarrow> error + statement_summary" where
  "new_balance_step first_page summary =
     (case re_search new_balance_re first_page of
        None \<Rightarrow> Inr summary
      | Some gs \<Rightarrow>
          (case parse_amount (gs ! 0) of
             Inl e \<Rightarrow> Inl e
           | Inr v \<Rightarrow> Inr (summary\<lparr>new_balance := Some v\<rparr>)))"

definition parse_summary :: "string list \<Rightarrow> error + statement_summary" where
  "parse_summary pages_text =
     (case pages_text of
        [] \<Rightarrow> Inr empty_summary
      | first_page # _ \<Rightarrow>
          (case prev_balance first_page (bill_period first_page empty_summary) of
             Inl e \<Rightarrow> Inl e
           | Inr summary \<Rightarrow> new_balance_step first_page summary))"

subsection \<open>\<^verbatim>\<open>parse_transactions\<close>: the scan of the pages\<close>

text \<open>
  \<^verbatim>\<open>current_section\<close> is \<^verbatim>\<open>None\<close>, \<^verbatim>\<open>"credit"\<close>, \<^verbatim>\<open>"debit"\<close> or
  \<^verbatim>\<open>"fees"\<close>. \<open>scan_line\<close> is the body of the inner loop: it returns the section after
  the line and the transactions the line appends, or the error that escapes. The source
  calls \<^verbatim>\<open>parse_date\<close> twice, then \<^verbatim>\<open>parse_amount\<close>, then tests the dates;
  \<^verbatim>\<open>parse_date\<close> cannot raise, so the amount is examined first here.
\<close>

definition scan_line :: "string option \<Rightarrow> string \<Rightarrow> error + (string option \<times> transaction list)" where
  "scan_line current_section raw =
     (let line = strip raw in
      if contains ''Payments and Other Credits'' line then Inr (Some ''credit'', [])
      else if contains ''Purchases and Cash Advances'' line then Inr (Some ''debit'', [])
      else if contains ''Fees and Interest Charged'' line then Inr (Some ''fees'', [])
      else if contains ''Sub Total'' line \<or> contains ''No transaction available'' line
      then Inr (current_section, [])
      else
        (case current_section of
           None \<Rightarrow> Inr (current_section, [])
         | Some sec \<Rightarrow>
             if sec = [] \<or> sec = ''fees'' then Inr (current_section, [])
             else
               (case re_match tx_re line of
                  None \<Rightarrow> Inr (current_section, [])
                | Some gs \<Rightarrow>
                    (case parse_amount (gs ! 3) of
                       Inl e \<Rightarrow> Inl e
                     | Inr amt \<Rightarrow>
                         (case (parse_date (gs ! 0), parse_date (gs ! 1)) of
                            (Some pd, Some td) \<Rightarrow>
                              Inr (current_section,
                                   [\<lparr>posted_date = pd, transaction_date = td,
                                     description = strip (gs ! 2), amount = amt,
                                     transaction_type = sec\<rparr>])
                          | _ \<Rightarrow> Inr (current_section, []))))))"

fun scan_lines :: "string option \<Rightarrow> string list \<Rightarrow> transaction list \<Rightarrow> error + transaction list" where
  "scan_lines current_section [] transactions = Inr transactions"
| "scan_lines current_section (l # ls) transactions =
     (case scan_line current_section l of
        Inl e \<Rightarrow> Inl e
      | Inr (sec, new) \<Rightarrow> scan_lines sec ls (transactions @ new))"

fun scan_pages :: "string list \<Rightarrow> transaction list \<Rightarrow> error + transaction list" where
  "scan_pages [] transactions = Inr transactions"
| "scan_pages (page_text # ps) transactions =
     (if \<not> contains ''Account Activity'' page_text then scan_pages ps transactions
      else
        (case scan_lines None (split_nl page_text) transactions of
           Inl e \<Rightarrow> Inl e
         | Inr txs \<Rightarrow> scan_pages ps txs))"

definition parse_transactions :: "string list \<Rightarrow> error + (transaction list \<times> statement_summary)" where
  "parse_transactions pages_text =
     (case parse_summary pages_text of
        Inl e \<Rightarrow> Inl e
      | Inr summary \<Rightarrow>
          (case scan_pages pages_text [] of
             Inl e \<Rightarrow> Inl e
           | Inr transactions \<Rightarrow> Inr (transactions, summary)))"

subsection \<open>\<^verbatim>\<open>parse_statement_pdf\<close>\<close>

text \<open>
  \<^verbatim>\<open>pikepdf.open\<close> followed by \<^verbatim>\<open>save\<close>, and \<^verbatim>\<open>pdfplumber\<close>'s page texts, are
  library calls: they are parameters here. A page whose \<^verbatim>\<open>extract_text()\<close> is
  \<^verbatim>\<open>None\<close> or empty gives the empty string.
\<close>

type_synonym bytes = "nat list"

definition decrypt_pdf :: "(bytes \<Rightarrow> string \<Rightarrow> error + bytes) \<Rightarrow> bytes \<Rightarrow> string \<Rightarrow> error + bytes" where
  "decrypt_pdf pikepdf_open pdf_bytes password = pikepdf_open pdf_bytes password"

definition extract_text_from_pdf ::
  "(bytes \<Rightarrow> error + string option list) \<Rightarrow> bytes \<Rightarrow> error + string list" where
  "extract_text_from_pdf pdfplumber_pages pdf_bytes =
     (case pdfplumber_pages pdf_bytes of
        Inl e \<Rightarrow> Inl e
      | Inr pages \<Rightarrow> Inr (map (\<lambda>t. case t of None \<Rightarrow> [] | Some text \<Rightarrow> text) pages))"

definition parse_statement_pdf ::
  "(bytes \<Rightarrow> string \<Rightarrow> error + bytes) \<Rightarrow> (bytes \<Rightarrow> error + string option list) \<Rightarrow>
   bytes \<Rightarrow> string \<Rightarrow> error + (transaction list \<times> statement_summary)" where
  "parse_statement_pdf pikepdf_open pdfplumber_pages pdf_bytes password =
     (case decrypt_pdf pikepdf_open pdf_bytes password of
        Inl e \<Rightarrow> Inl e
      | Inr decrypted \<Rightarrow>
          (case extract_text_from_pdf pdfplumber_pages decrypted of
             Inl e \<Rightarrow> Inl e
           | Inr pages_text \<Rightarrow> parse_transactions pages_text))"

subsection \<open>Predicates used in the statements\<close>

text \<open>
  What a successful match says about the pieces it returns: the piece of each \<open>Rep\<close>
  starts with the characters already taken, continues with characters of the class,
  and has at least the required length.
\<close>

fun segs_ok :: "item list \<Rightarrow> string \<Rightarrow> string list \<Rightarrow> bool" where
  "segs_ok [] acc segs = (segs = [])"
| "segs_ok (Rep cls lo hi g # r) acc [] = False"
| "segs_ok (Rep cls lo hi g # r) acc (seg # segs) =
     (prefix acc seg \<and> list_all cls (drop (length acc) seg) \<and> lo \<le> length seg - length acc \<and>
      segs_ok r [] segs)"
| "segs_ok (Eos # r) acc segs = segs_ok r [] segs"
| "segs_ok (Open # r) acc segs = segs_ok r [] segs"
| "segs_ok (Close # r) acc segs = segs_ok r [] segs"

fun hacc :: "item list \<Rightarrow> string \<Rightarrow> string" where
  "hacc (Rep cls lo hi g # r) acc = acc"
| "hacc r acc = []"

text \<open>A line that holds one of the five marker texts is never read as a transaction.\<close>

definition keyword_line :: "string \<Rightarrow> bool" where
  "keyword_line line =
     (contains ''Payments and Other Credits'' line \<or> contains ''Purchases and Cash Advances'' line \<or>
      contains ''Fees and Interest Charged'' line \<or> contains ''Sub Total'' line \<or>
      contains ''No transaction available'' line)"

text \<open>
  The properties of a returned transaction: amount not negative, type credit or debit,
  both dates calendar dates.
\<close>

definition good_tx :: "transaction \<Rightarrow> bool" where
  "good_tx tx =
     (nonneg (amount tx) \<and>
      (transaction_type tx = ''credit'' \<or> transaction_type tx = ''debit'') \<and>
      valid_date (posted_date tx) \<and> valid_date (transaction_date tx))"

text \<open>The values \<^verbatim>\<open>current_section\<close> can take.\<close>

definition section_ok :: "string option \<Rightarrow> bool" where
  "section_ok cs = (cs = None \<or> cs = Some ''credit'' \<or> cs = Some ''debit'' \<or> cs = Some ''fees'')"

section \<open>Evaluation\<close>

lemmas class_defs = is_digit_def is_space_def is_amt_def not_nl_def in_range_def

lemmas re_defs = re_match_def tx_re_def bill_period_re_def prev_balance_re_def
  new_balance_re_def date_items_def one_def lit_def

lemmas float_defs = parse_amount_def Let_def remove_char_def strip_def float_of_str_def
  float_strip_def is_float_space_def round_float_def
  take_sign_def ci_eq_def number_def digitpart_def exponent_def scale10_def
  nat_of_digits_def digit_val_def suffix_to_prefix

lemmas date_defs = parse_date_def strptime_def fmt_mdY_def fmt_dmY_def
  valid_date_def days_in_month_def leap_def

lemmas summary_defs = parse_summary_def bill_period_def prev_balance_def
  new_balance_step_def empty_summary_def

section \<open>The amount decoder\<close>

text \<open>
  C8: \<^verbatim>\<open>parse_amount\<close> maps \<^verbatim>\<open>($123.45)\<close> to -123.45 and \<^verbatim>\<open>$1,234.56\<close> to
  1234.56: the currency symbol and the commas are removed and a value in parentheses is
  negated.
\<close>

theorem parse_amount_examples:
  "parse_amount ''($123.45)'' = Inr (Fin (- (12345 / 100))) \<and>
   parse_amount ''$1,234.56'' = Inr (Fin (123456 / 100))"
  by (simp add: float_defs class_defs)

section \<open>The example transaction line\<close>

text \<open>
  C4: the line \<^verbatim>\<open>04/02/2024  04/01/2024  AMAZON MKTPLACE  $45.67\<close>, scanned in the
  debit section of a page that contains \<^verbatim>\<open>Account Activity\<close>, yields exactly one
  transaction: posted 2024-04-02, made 2024-04-01, description
  \<^verbatim>\<open>AMAZON MKTPLACE\<close>, amount 45.67, type debit.
\<close>

theorem amazon_line_debit:
  "scan_line (Some ''debit'') ''04/02/2024  04/01/2024  AMAZON MKTPLACE  $45.67'' =
     Inr (Some ''debit'',
          [\<lparr>posted_date = \<lparr>year = 2024, month = 4, day = 2\<rparr>,
            transaction_date = \<lparr>year = 2024, month = 4, day = 1\<rparr>,
            description = ''AMAZON MKTPLACE'', amount = Fin (4567 / 100),
            transaction_type = ''debit''\<rparr>]) \<and>
   parse_transactions
     [''Account Activity\<newline>Purchases and Cash Advances\<newline>04/02/2024  04/01/2024  AMAZON MKTPLACE  $45.67''] =
     Inr ([\<lparr>posted_date = \<lparr>year = 2024, month = 4, day = 2\<rparr>,
            transaction_date = \<lparr>year = 2024, month = 4, day = 1\<rparr>,
            description = ''AMAZON MKTPLACE'', amount = Fin (4567 / 100),
            transaction_type = ''debit''\<rparr>], empty_summary)"
proof -
  have line: "scan_line (Some ''debit'') ''04/02/2024  04/01/2024  AMAZON MKTPLACE  $45.67'' =
     Inr (Some ''debit'',
          [\<lparr>posted_date = \<lparr>year = 2024, month = 4, day = 2\<rparr>,
            transaction_date = \<lparr>year = 2024, month = 4, day = 1\<rparr>,
            description = ''AMAZON MKTPLACE'', amount = Fin (4567 / 100),
            transaction_type = ''debit''\<rparr>])"
    by (simp add: scan_line_def re_defs float_defs date_defs class_defs)
  have l1: "scan_line None ''Account Activity'' = Inr (None, [])"
    by (simp add: scan_line_def strip_def class_defs)
  have l2: "scan_line None ''Purchases and Cash Advances'' = Inr (Some ''debit'', [])"
    by (simp add: scan_line_def strip_def class_defs)
  have summ: "parse_summary
     [''Account Activity\<newline>Purchases and Cash Advances\<newline>04/02/2024  04/01/2024  AMAZON MKTPLACE  $45.67''] =
     Inr empty_summary"
    by (simp add: summary_defs re_defs class_defs)
  show ?thesis
    by (simp add: parse_transactions_def summ line l1 l2)
qed

section \<open>The example summary page\<close>

text \<open>
  C7: a first page with the lines \<^verbatim>\<open>Bill Period: 01-03-2024 - 31-03-2024\<close>,
  \<^verbatim>\<open>Previous Balance $200.00\<close> and \<^verbatim>\<open>New Balance $350.25\<close> gives the summary
  with bill period 2024-03-01 to 2024-03-31 (day first, then month), previous balance
  200.00 and new balance 350.25.
\<close>

theorem summary_example:
  "parse_transactions
     [''Bill Period: 01-03-2024 - 31-03-2024\<newline>Previous Balance $200.00\<newline>New Balance $350.25''] =
     Inr ([], empty_summary
            \<lparr>bill_period_start := Some \<lparr>year = 2024, month = 3, day = 1\<rparr>,
             bill_period_end := Some \<lparr>year = 2024, month = 3, day = 31\<rparr>,
             previous_balance := Some (Fin 200),
             new_balance := Some (Fin (35025 / 100))\<rparr>)"
proof -
  have summ: "parse_summary
     [''Bill Period: 01-03-2024 - 31-03-2024\<newline>Previous Balance $200.00\<newline>New Balance $350.25''] =
     Inr (empty_summary
            \<lparr>bill_period_start := Some \<lparr>year = 2024, month = 3, day = 1\<rparr>,
             bill_period_end := Some \<lparr>year = 2024, month = 3, day = 31\<rparr>,
             previous_balance := Some (Fin 200),
             new_balance := Some (Fin (35025 / 100))\<rparr>)"
    by (simp add: summary_defs re_defs float_defs date_defs class_defs)
  show ?thesis
    by (simp add: parse_transactions_def summ)
qed

section \<open>An amount that is not a number\<close>

text \<open>
  C1: a line is turned into a transaction only when both dates and the amount parse, and
  a line that fails is dropped without an error. The code drops a line that does not
  match and a line whose dates do not parse, but \<^verbatim>\<open>parse_amount\<close> does not catch the
  \<^verbatim>\<open>ValueError\<close> of \<^verbatim>\<open>float\<close>: the amount text \<^verbatim>\<open>1.2.3\<close> matches
  \<^verbatim>\<open>[\d,.]+\<close> and the error escapes from \<^verbatim>\<open>parse_transactions\<close>.
\<close>

theorem amount_error_escapes:
  "parse_transactions
     [''Account Activity\<newline>Purchases and Cash Advances\<newline>04/02/2024 04/01/2024 APP STORE v 1.2.3''] =
     Inl ValueError"
proof -
  have line: "scan_line (Some ''debit'') ''04/02/2024 04/01/2024 APP STORE v 1.2.3'' = Inl ValueError"
    by (simp add: scan_line_def re_defs float_defs class_defs)
  have l1: "scan_line None ''Account Activity'' = Inr (None, [])"
    by (simp add: scan_line_def strip_def class_defs)
  have l2: "scan_line None ''Purchases and Cash Advances'' = Inr (Some ''debit'', [])"
    by (simp add: scan_line_def strip_def class_defs)
  have summ: "parse_summary
     [''Account Activity\<newline>Purchases and Cash Advances\<newline>04/02/2024 04/01/2024 APP STORE v 1.2.3''] =
     Inr empty_summary"
    by (simp add: summary_defs re_defs class_defs)
  show ?thesis
    by (simp add: parse_transactions_def summ line l1 l2)
qed

section \<open>Failure of the decryption\<close>




section \<open>A bill period whose end date does not exist\<close>

text \<open>
  C10: when the \<^verbatim>\<open>Bill Period:\<close> pattern matches, the start date is a calendar date
  and the end date is not, \<^verbatim>\<open>bill_period_start\<close> is set and \<^verbatim>\<open>bill_period_end\<close>
  stays absent: the two fields are not set together.
\<close>

theorem bill_period_not_atomic:
  assumes "re_search bill_period_re first_page = Some gs"
    and "strptime (gs ! 0) fmt_dmY = Some d"
    and "strptime (gs ! 1) fmt_dmY = None"
  shows "bill_period first_page empty_summary = empty_summary\<lparr>bill_period_start := Some d\<rparr> \<and>
         (parse_transactions (first_page # ps) = Inr (txs, sm) \<longrightarrow>
            bill_period_start sm = Some d \<and> bill_period_end sm = None)"
proof -
  have bp: "bill_period first_page empty_summary = empty_summary\<lparr>bill_period_start := Some d\<rparr>"
    using assms by (simp add: bill_period_def)
  have "bill_period_start sm = Some d \<and> bill_period_end sm = None"
    if "parse_transactions (first_page # ps) = Inr (txs, sm)"
    using that
    by (auto simp: parse_transactions_def parse_summary_def bp [unfolded empty_summary_def]
        prev_balance_def new_balance_step_def empty_summary_def
        split: sum.splits option.splits)
  with bp show ?thesis by blast
qed

theorem bill_period_not_atomic_witness:
  "re_search bill_period_re
     ''Bill Period: 01-03-2024 - 31-13-2024\<newline>Previous Balance $200.00\<newline>New Balance $350.25'' =
     Some [''01-03-2024'', ''31-13-2024''] \<and>
   strptime ''01-03-2024'' fmt_dmY = Some \<lparr>year = 2024, month = 3, day = 1\<rparr> \<and>
   strptime ''31-13-2024'' fmt_dmY = None \<and>
   parse_transactions
     [''Bill Period: 01-03-2024 - 31-13-2024\<newline>Previous Balance $200.00\<newline>New Balance $350.25''] =
     Inr ([], empty_summary
            \<lparr>bill_period_start := Some \<lparr>year = 2024, month = 3, day = 1\<rparr>,
             previous_balance := Some (Fin 200),
             new_balance := Some (Fin (35025 / 100))\<rparr>) \<and>
   bill_period_start (empty_summary
            \<lparr>bill_period_start := Some \<lparr>year = 2024, month = 3, day = 1\<rparr>,
             previous_balance := Some (Fin 200),
             new_balance := Some (Fin (35025 / 100))\<rparr>) = Some \<lparr>year = 2024, month = 3, day = 1\<rparr> \<and>
   bill_period_end (empty_summary
            \<lparr>bill_period_start := Some \<lparr>year = 2024, month = 3, day = 1\<rparr>,
             previous_balance := Some (Fin 200),
             new_balance := Some (Fin (35025 / 100))\<rparr>) = None"
proof -
  have h1: "re_search bill_period_re
     ''Bill Period: 01-03-2024 - 31-13-2024\<newline>Previous Balance $200.00\<newline>New Balance $350.25'' =
     Some [''01-03-2024'', ''31-13-2024'']"
    by (simp add: re_defs class_defs)
  have h2: "strptime ([''01-03-2024'', ''31-13-2024''] ! 0) fmt_dmY = Some \<lparr>year = 2024, month = 3, day = 1\<rparr>"
    by (simp add: date_defs class_defs nat_of_digits_def digit_val_def)
  have h3: "strptime ([''01-03-2024'', ''31-13-2024''] ! 1) fmt_dmY = None"
    by (simp add: date_defs class_defs nat_of_digits_def digit_val_def)
  have summ: "parse_summary
     [''Bill Period: 01-03-2024 - 31-13-2024\<newline>Previous Balance $200.00\<newline>New Balance $350.25''] =
     Inr (empty_summary
            \<lparr>bill_period_start := Some \<lparr>year = 2024, month = 3, day = 1\<rparr>,
             previous_balance := Some (Fin 200),
             new_balance := Some (Fin (35025 / 100))\<rparr>)"
    by (simp add: summary_defs re_defs float_defs date_defs class_defs)
  have pt: "parse_transactions
     [''Bill Period: 01-03-2024 - 31-13-2024\<newline>Previous Balance $200.00\<newline>New Balance $350.25''] =
     Inr ([], empty_summary
            \<lparr>bill_period_start := Some \<lparr>year = 2024, month = 3, day = 1\<rparr>,
             previous_balance := Some (Fin 200),
             new_balance := Some (Fin (35025 / 100))\<rparr>)"
    by (simp add: parse_transactions_def summ)
  show ?thesis
    using h1 h2 h3 pt bill_period_not_atomic [OF h1 h2 h3, of "[]" "[]"]
    by simp
qed

section \<open>What a match of the line pattern looks like\<close>

lemma hacc_Nil [simp]: "hacc r [] = []"
  by (cases "(r, []::string)" rule: hacc.cases) auto

lemma segs_ok_step:
  "segs_ok (Rep cls lo' hi' g # r) (acc @ [c]) segs \<Longrightarrow> cls c \<Longrightarrow> lo \<le> Suc lo' \<Longrightarrow>
   segs_ok (Rep cls lo hi g # r) acc segs"
proof (cases segs)
  case Nil
  assume "segs_ok (Rep cls lo' hi' g # r) (acc @ [c]) segs"
  with Nil show ?thesis by simp
next
  case (Cons seg segs')
  assume a: "segs_ok (Rep cls lo' hi' g # r) (acc @ [c]) segs" and c: "cls c" and l: "lo \<le> Suc lo'"
  from a Cons obtain t where t: "seg = acc @ c # t"
    by (auto simp: prefix_def)
  with a Cons c l show ?thesis by auto
qed

lemma rmatch_sound:
  "rmatch items s acc = Some (segs, rest) \<Longrightarrow>
   segs_ok items acc segs \<and> hacc items acc @ s = concat segs @ rest"
proof (induction items s acc arbitrary: segs rest rule: rmatch.induct)
  case (1 s acc)
  then show ?case by simp
next
  case (2 r s acc)
  then show ?case by (auto split: if_splits)
next
  case (3 r s acc)
  then show ?case by auto
next
  case (4 r s acc)
  then show ?case by auto
next
  case (5 cls lo hi g r acc)
  then show ?case by (auto split: if_splits)
next
  case (6 cls lo hi g r c cs acc)
  show ?case
  proof (cases "cls c \<and> hi_left hi")
    case False
    with "6.prems" "6.IH"(6) show ?thesis by (auto split: if_splits)
  next
    case True
    note ch = True
    show ?thesis
    proof (cases "0 < lo")
      case True
      from "6.prems" ch True
      have eq: "rmatch (Rep cls (lo - 1) (map_option (\<lambda>h. h - 1) hi) g # r) cs (acc @ [c]) = Some (segs, rest)"
        by simp
      from "6.IH"(1) [OF ch True eq] ch True show ?thesis
        by (auto intro: segs_ok_step [where lo' = "lo - 1"])
    next
      case lo0: False
      have more: "segs_ok (Rep cls lo hi g # r) acc segs \<and> acc @ c # cs = concat segs @ rest"
        if "rmatch (Rep cls 0 (map_option (\<lambda>h. h - 1) hi) g # r) cs (acc @ [c]) = Some (segs, rest)"
           and ih: "segs_ok (Rep cls 0 (map_option (\<lambda>h. h - 1) hi) g # r) (acc @ [c]) segs \<and>
                hacc (Rep cls 0 (map_option (\<lambda>h. h - 1) hi) g # r) (acc @ [c]) @ cs = concat segs @ rest"
        using ih ch lo0 by (auto intro: segs_ok_step [where lo' = 0])
      have stop: "segs_ok (Rep cls lo hi g # r) acc segs \<and> acc @ c # cs = concat segs @ rest"
        if "map_option (\<lambda>(segs, rest). (acc # segs, rest)) (rmatch r (c # cs) []) = Some (segs, rest)"
           and ih: "\<And>sg rs. rmatch r (c # cs) [] = Some (sg, rs) \<Longrightarrow>
                segs_ok r [] sg \<and> hacc r [] @ c # cs = concat sg @ rs"
        using that lo0 by auto
      show ?thesis
      proof (cases g)
        case True
        show ?thesis
        proof (cases "rmatch (Rep cls 0 (map_option (\<lambda>h. h - 1) hi) g # r) cs (acc @ [c])")
          case None
          with ch lo0 True "6.prems" have "map_option (\<lambda>(segs, rest). (acc # segs, rest)) (rmatch r (c # cs) []) = Some (segs, rest)"
            by simp
          moreover have "\<And>sg rs. rmatch r (c # cs) [] = Some (sg, rs) \<Longrightarrow>
                segs_ok r [] sg \<and> hacc r [] @ c # cs = concat sg @ rs"
            using "6.IH"(3) [OF ch lo0 True None] by blast
          ultimately show ?thesis using stop by simp
        next
          case (Some x)
          with ch lo0 True "6.prems" have eq: "rmatch (Rep cls 0 (map_option (\<lambda>h. h - 1) hi) g # r) cs (acc @ [c]) = Some (segs, rest)"
            by simp
          from "6.IH"(2) [OF ch lo0 True eq] eq show ?thesis using more by simp
        qed
      next
        case False
        show ?thesis
        proof (cases "map_option (\<lambda>(segs, rest). (acc # segs, rest)) (rmatch r (c # cs) [])")
          case None
          with ch lo0 False "6.prems" have eq: "rmatch (Rep cls 0 (map_option (\<lambda>h. h - 1) hi) g # r) cs (acc @ [c]) = Some (segs, rest)"
            by simp
          from "6.IH"(5) [OF ch lo0 False None eq] eq show ?thesis using more by simp
        next
          case (Some x)
          with ch lo0 False "6.prems" have "map_option (\<lambda>(segs, rest). (acc # segs, rest)) (rmatch r (c # cs) []) = Some (segs, rest)"
            by simp
          moreover have "\<And>sg rs. rmatch r (c # cs) [] = Some (sg, rs) \<Longrightarrow>
                segs_ok r [] sg \<and> hacc r [] @ c # cs = concat sg @ rs"
            using "6.IH"(4) [OF ch lo0 False] by blast
          ultimately show ?thesis using stop by simp
        qed
      qed
    qed
  qed
qed


lemma rmatch_suffix: "rmatch items s acc = Some (segs, rest) \<Longrightarrow> suffix rest s"
proof (induction items s acc arbitrary: segs rest rule: rmatch.induct)
  case (6 cls lo hi g r c cs acc)
  then show ?case
    by (auto split: if_splits option.splits intro: suffix_ConsI)
qed (auto split: if_splits)

lemma rmatch_eos:
  "rmatch items s acc = Some (segs, rest) \<Longrightarrow> Eos \<in> set items \<Longrightarrow> rest = [] \<or> rest = [CHR 0x0A]"
proof (induction items s acc arbitrary: segs rest rule: rmatch.induct)
  case (2 r s acc)
  then have "suffix rest s" and "s = [] \<or> s = [CHR 0x0A]"
    by (auto split: if_splits dest: rmatch_suffix)
  then show ?case
    by (auto simp: suffix_Cons)
next
  case (6 cls lo hi g r c cs acc)
  then show ?case
    by (auto split: if_splits option.splits)
qed (auto split: if_splits)

lemma segs_ok_Rep:
  "segs_ok (Rep cls lo hi g # r) [] segs =
     (\<exists>seg segs'. segs = seg # segs' \<and> list_all cls seg \<and> lo \<le> length seg \<and> segs_ok r [] segs')"
  by (cases segs) auto

lemma tx_re_match:
  assumes "re_match tx_re s = Some gs"
  shows "length gs = 4 \<and> gs ! 3 \<noteq> [] \<and> list_all is_amt (gs ! 3) \<and>
         s \<noteq> [] \<and> (is_amt (last s) \<or> is_space (last s))"
proof -
  from assms obtain segs rest where m: "rmatch tx_re s [] = Some (segs, rest)"
    and gs: "gs = groups tx_re segs None"
    by (auto simp: re_match_def)
  from rmatch_sound [OF m] have ok: "segs_ok tx_re [] segs" and s: "s = concat segs @ rest"
    by auto
  from rmatch_eos [OF m] have rest: "rest = [] \<or> rest = [CHR 0x0A]"
    by (simp add: tx_re_def)
  from ok obtain a1 a2 a3 a4 a5 w1 b1 b2 b3 b4 b5 w2 d w3 dl am w4 where
    segs: "segs = [a1, a2, a3, a4, a5, w1, b1, b2, b3, b4, b5, w2, d, w3, dl, am, w4]"
    and am: "list_all is_amt am" "1 \<le> length am" and w4: "list_all is_space w4"
    by (auto simp: tx_re_def date_items_def one_def segs_ok_Rep)
  have g: "length gs = 4 \<and> gs ! 3 = am"
    by (simp add: gs segs tx_re_def date_items_def one_def)
  from am have amne: "am \<noteq> []" by auto
  have sp: "is_space (CHR 0x0A)" by (simp add: is_space_def)
  have l: "is_amt (last s) \<or> is_space (last s)"
  proof (cases "rest = []")
    case False
    with rest sp show ?thesis by (auto simp: s)
  next
    case True
    show ?thesis
    proof (cases "w4 = []")
      case True
      with \<open>rest = []\<close> amne am show ?thesis
        by (simp add: s segs list_all_iff)
    next
      case False
      with \<open>rest = []\<close> w4 show ?thesis
        by (simp add: s segs list_all_iff)
    qed
  qed
  from amne have "s \<noteq> []" by (simp add: s segs)
  with g am amne l show ?thesis by simp
qed

section \<open>Properties of every returned transaction\<close>

text \<open>
  The amount group of the line pattern holds only digits, commas and points, so an
  amount that \<^verbatim>\<open>float\<close> accepts is not negative; a date that \<^verbatim>\<open>parse_date\<close>
  returns is a calendar date; the type is the section, which is credit or debit when a
  line is read. So whenever \<^verbatim>\<open>parse_transactions\<close> returns, every transaction is good.
\<close>

lemma set_strip: "set (strip s) \<subseteq> set s"
proof -
  have "set (strip s) \<subseteq> set (dropWhile is_space s)"
    unfolding strip_def using set_dropWhileD [of _ is_space "rev (dropWhile is_space s)"] by auto
  also have "\<dots> \<subseteq> set s"
    using set_dropWhileD [of _ is_space s] by auto
  finally show ?thesis .
qed

lemma scale10_nonneg: "0 \<le> m \<Longrightarrow> 0 \<le> scale10 m k"
  by (simp add: scale10_def)

lemma set_float_strip: "set (float_strip s) \<subseteq> set s"
proof -
  have "set (float_strip s) \<subseteq> set (dropWhile is_float_space s)"
    unfolding float_strip_def
    using set_dropWhileD [of _ is_float_space "rev (dropWhile is_float_space s)"] by auto
  also have "\<dots> \<subseteq> set s"
    using set_dropWhileD [of _ is_float_space s] by auto
  finally show ?thesis .
qed

lemma round_float_nonneg: "0 \<le> m \<Longrightarrow> nonneg (round_float False m)"
  by (simp add: round_float_def)

lemma float_unsigned:
  assumes "\<forall>c\<in>set s. is_amt c" and "float_of_str s = Some v"
  shows "nonneg v"
proof -
  have t: "\<forall>c\<in>set (float_strip s). is_amt c"
    using assms(1) set_float_strip [of s] by blast
  have sign: "take_sign (float_strip s) = (False, float_strip s)"
  proof (cases "float_strip s")
    case Nil
    then show ?thesis by (simp add: take_sign_def)
  next
    case (Cons c r)
    with t have "is_amt c" by simp
    then have "c \<noteq> CHR ''-''" "c \<noteq> CHR ''+''"
      by (auto simp: is_amt_def is_digit_def)
    with Cons show ?thesis by (simp add: take_sign_def)
  qed
  have nan: "\<not> ci_eq (float_strip s) (zip ''nan'' ''NAN'')"
  proof (cases "float_strip s")
    case Nil
    then show ?thesis by (simp add: ci_eq_def)
  next
    case (Cons c r)
    with t have "is_amt c" by simp
    then have "c \<noteq> CHR ''n''" "c \<noteq> CHR ''N''"
      by (auto simp: is_amt_def is_digit_def)
    with Cons show ?thesis by (simp add: ci_eq_def)
  qed
  from assms(2) sign nan show ?thesis
    by (auto simp: float_of_str_def scale10_nonneg round_float_nonneg
        split: if_splits option.splits)
qed

lemma parse_amount_unsigned:
  assumes "list_all is_amt g" and "parse_amount g = Inr v"
  shows "nonneg v"
proof -
  define c where "c = strip (remove_char CHR '','' (remove_char CHR ''$'' g))"
  have amt: "\<forall>x\<in>set c. is_amt x"
    using assms(1) set_strip [of "remove_char CHR '','' (remove_char CHR ''$'' g)"]
    by (auto simp: c_def remove_char_def list_all_iff)
  have "\<not> prefix ''('' c"
  proof (cases c)
    case Nil
    then show ?thesis by simp
  next
    case (Cons x r)
    with amt have "is_amt x" by simp
    then have "x \<noteq> CHR ''(''" by (auto simp: is_amt_def is_digit_def)
    with Cons show ?thesis by simp
  qed
  with assms(2) have "float_of_str c = Some v"
    by (auto simp: parse_amount_def Let_def c_def [symmetric] split: option.splits)
  with amt show ?thesis by (rule float_unsigned)
qed

lemma parse_date_valid: "parse_date g = Some d \<Longrightarrow> valid_date d"
  by (auto simp: parse_date_def strptime_def split: list.splits if_splits)

lemma scan_line_good:
  assumes "scan_line cs raw = Inr (sec, new)" and "section_ok cs"
  shows "section_ok sec \<and> list_all good_tx new"
proof (cases "keyword_line (strip raw)")
  case True
  with assms show ?thesis
    by (auto simp: scan_line_def Let_def keyword_line_def section_ok_def split: if_splits)
next
  case False
  then have sl: "scan_line cs raw =
     (case cs of
           None \<Rightarrow> Inr (cs, [])
         | Some sec \<Rightarrow>
             if sec = [] \<or> sec = ''fees'' then Inr (cs, [])
             else
               (case re_match tx_re (strip raw) of
                  None \<Rightarrow> Inr (cs, [])
                | Some gs \<Rightarrow>
                    (case parse_amount (gs ! 3) of
                       Inl e \<Rightarrow> Inl e
                     | Inr amt \<Rightarrow>
                         (case (parse_date (gs ! 0), parse_date (gs ! 1)) of
                            (Some pd, Some td) \<Rightarrow>
                              Inr (cs,
                                   [\<lparr>posted_date = pd, transaction_date = td,
                                     description = strip (gs ! 2), amount = amt,
                                     transaction_type = sec\<rparr>])
                          | _ \<Rightarrow> Inr (cs, [])))))"
    by (simp add: scan_line_def Let_def keyword_line_def)
  show ?thesis
  proof (cases "re_match tx_re (strip raw)")
    case None
    with assms sl show ?thesis
      by (auto split: option.splits if_splits)
  next
    case (Some gs)
    from tx_re_match [OF Some] have am: "list_all is_amt (gs ! 3)" by simp
    from assms sl Some show ?thesis
      by (auto simp: good_tx_def section_ok_def parse_amount_unsigned [OF am] parse_date_valid
          split: option.splits if_splits sum.splits)
  qed
qed

lemma scan_lines_good:
  "scan_lines cs ls txs = Inr out \<Longrightarrow> section_ok cs \<Longrightarrow> list_all good_tx txs \<Longrightarrow> list_all good_tx out"
proof (induction ls arbitrary: cs txs)
  case Nil
  then show ?case by simp
next
  case (Cons l ls)
  from Cons.prems(1) obtain sec new where sl: "scan_line cs l = Inr (sec, new)"
    and rest: "scan_lines sec ls (txs @ new) = Inr out"
    by (auto split: sum.splits)
  from scan_line_good [OF sl Cons.prems(2)] Cons.prems(3)
  have "section_ok sec" "list_all good_tx (txs @ new)" by auto
  with Cons.IH [OF rest] show ?case by simp
qed

lemma scan_pages_good:
  "scan_pages ps txs = Inr out \<Longrightarrow> list_all good_tx txs \<Longrightarrow> list_all good_tx out"
proof (induction ps arbitrary: txs)
  case Nil
  then show ?case by simp
next
  case (Cons p ps)
  show ?case
  proof (cases "contains ''Account Activity'' p")
    case False
    with Cons show ?thesis by simp
  next
    case True
    with Cons.prems(1) obtain mid where m: "scan_lines None (split_nl p) txs = Inr mid"
      and r: "scan_pages ps mid = Inr out"
      by (auto split: sum.splits)
    from scan_lines_good [OF m _ Cons.prems(2)] have "list_all good_tx mid"
      by (simp add: section_ok_def)
    with Cons.IH [OF r] show ?thesis .
  qed
qed

lemma parse_transactions_good:
  "parse_transactions pages_text = Inr (txs, sm) \<Longrightarrow> list_all good_tx txs"
  by (auto simp: parse_transactions_def split: sum.splits dest: scan_pages_good)

lemma scan_line_plain:
  "\<not> keyword_line (strip raw) \<Longrightarrow> scan_line cs raw =
     (case cs of
           None \<Rightarrow> Inr (cs, [])
         | Some sec \<Rightarrow>
             if sec = [] \<or> sec = ''fees'' then Inr (cs, [])
             else
               (case re_match tx_re (strip raw) of
                  None \<Rightarrow> Inr (cs, [])
                | Some gs \<Rightarrow>
                    (case parse_amount (gs ! 3) of
                       Inl e \<Rightarrow> Inl e
                     | Inr amt \<Rightarrow>
                         (case (parse_date (gs ! 0), parse_date (gs ! 1)) of
                            (Some pd, Some td) \<Rightarrow>
                              Inr (cs,
                                   [\<lparr>posted_date = pd, transaction_date = td,
                                     description = strip (gs ! 2), amount = amt,
                                     transaction_type = sec\<rparr>])
                          | _ \<Rightarrow> Inr (cs, [])))))"
  by (simp add: scan_line_def Let_def keyword_line_def)

lemma scan_line_keyword:
  "keyword_line (strip raw) \<Longrightarrow> \<exists>sec. scan_line cs raw = Inr (sec, [])"
  by (auto simp: scan_line_def Let_def keyword_line_def)

lemma scan_pages_append:
  "scan_pages (ps @ qs) txs =
     (case scan_pages ps txs of Inl e \<Rightarrow> Inl e | Inr mid \<Rightarrow> scan_pages qs mid)"
  by (induction ps arbitrary: txs) (auto split: sum.splits)

section \<open>Returning the transactions\<close>

text \<open>
  C2: for a valid encrypted input and the right password, \<^verbatim>\<open>parse\<close> returns
  transactions that all have a non-negative amount, type credit or debit and calendar
  dates. Every list that is returned is such a list (\<open>parse_transactions_good\<close>), but
  the call does not always return: with decryption and text extraction succeeding, a
  line whose amount text is \<^verbatim>\<open>1,250.00.\<close> makes \<^verbatim>\<open>float\<close> raise, and the
  \<^verbatim>\<open>ValueError\<close> escapes.
\<close>

theorem parse_fails_on_bad_amount:
  "parse_statement_pdf (\<lambda>b pw. Inr b)
     (\<lambda>b. Inr [Some ''Account Activity\<newline>Payments and Other Credits\<newline>03/05/2024 03/04/2024 PAYMENT RECEIVED 1,250.00.''])
     [37, 80, 68, 70] ''secret'' = Inl ValueError"
proof -
  have line: "scan_line (Some ''credit'') ''03/05/2024 03/04/2024 PAYMENT RECEIVED 1,250.00.'' = Inl ValueError"
    by (simp add: scan_line_def re_defs float_defs class_defs)
  have l1: "scan_line None ''Account Activity'' = Inr (None, [])"
    by (simp add: scan_line_def strip_def class_defs)
  have l2: "scan_line None ''Payments and Other Credits'' = Inr (Some ''credit'', [])"
    by (simp add: scan_line_def strip_def class_defs)
  have summ: "parse_summary
     [''Account Activity\<newline>Payments and Other Credits\<newline>03/05/2024 03/04/2024 PAYMENT RECEIVED 1,250.00.''] =
     Inr empty_summary"
    by (simp add: summary_defs re_defs class_defs)
  show ?thesis
    by (simp add: parse_statement_pdf_def decrypt_pdf_def extract_text_from_pdf_def
        parse_transactions_def summ line l1 l2)
qed

section \<open>Amounts in parentheses\<close>

text \<open>
  C3, as stated: a line in the credit or debit section whose amount is wrapped in
  parentheses yields a transaction with the negated amount. It does not: the line
  \<^verbatim>\<open>04/02/2024 04/01/2024 REFUND ($123.45)\<close> yields no transaction in either section.
\<close>

theorem paren_amount_counterexample:
  "scan_line (Some ''debit'') ''04/02/2024 04/01/2024 REFUND ($123.45)'' = Inr (Some ''debit'', []) \<and>
   scan_line (Some ''credit'') ''04/02/2024 04/01/2024 REFUND ($123.45)'' = Inr (Some ''credit'', [])"
  by (simp add: scan_line_def re_defs class_defs strip_def)

text \<open>
  C3, amended: a line whose text, once stripped, ends with a closing parenthesis does
  not match the line pattern (the amount group admits digits, commas and points only),
  so in every section it yields no transaction and no error.
\<close>

theorem paren_amount_dropped:
  assumes "strip raw \<noteq> []" and "last (strip raw) = CHR '')''"
  shows "re_match tx_re (strip raw) = None \<and> (\<exists>sec. scan_line cs raw = Inr (sec, []))"
proof -
  have no: "re_match tx_re (strip raw) = None"
  proof (cases "re_match tx_re (strip raw)")
    case None
    then show ?thesis .
  next
    case (Some gs)
    from tx_re_match [OF Some] assms(2) have "is_amt CHR '')'' \<or> is_space CHR '')''"
      by simp
    then show ?thesis by (simp add: is_amt_def is_digit_def is_space_def)
  qed
  show ?thesis
  proof (cases "keyword_line (strip raw)")
    case True
    with no scan_line_keyword show ?thesis by blast
  next
    case False
    with no show ?thesis
      by (auto simp: scan_line_plain split: option.splits)
  qed
qed

theorem paren_amount_dropped_witness:
  "strip ''03/10/2024 03/09/2024 PAYMENT REVERSAL ($50.00)'' \<noteq> [] \<and>
   last (strip ''03/10/2024 03/09/2024 PAYMENT REVERSAL ($50.00)'') = CHR '')'' \<and>
   re_match tx_re (strip ''03/10/2024 03/09/2024 PAYMENT REVERSAL ($50.00)'') = None \<and>
   (\<exists>sec. scan_line (Some ''credit'') ''03/10/2024 03/09/2024 PAYMENT REVERSAL ($50.00)'' = Inr (sec, []))"
proof -
  have h1: "strip ''03/10/2024 03/09/2024 PAYMENT REVERSAL ($50.00)'' \<noteq> []"
    by (simp add: strip_def class_defs)
  have h2: "last (strip ''03/10/2024 03/09/2024 PAYMENT REVERSAL ($50.00)'') = CHR '')''"
    by (simp add: strip_def class_defs)
  show ?thesis
    using h1 h2 paren_amount_dropped [OF h1 h2, of "Some ''credit''"] by simp
qed

section \<open>The section decides the type\<close>

text \<open>
  C5: a transaction read in the credit section has type credit, one read in the debit
  section has type debit, and with no section or in the fees section a line yields
  nothing. A line that matches the pattern, holds none of the marker texts, and whose
  amount and dates parse, yields exactly one transaction, typed by the section.
\<close>

theorem section_decides_type:
  "(scan_line (Some ''credit'') raw1 = Inr (sec1, txs1) \<longrightarrow>
      (\<forall>tx\<in>set txs1. transaction_type tx = ''credit'')) \<and>
   (scan_line (Some ''debit'') raw2 = Inr (sec2, txs2) \<longrightarrow>
      (\<forall>tx\<in>set txs2. transaction_type tx = ''debit'')) \<and>
   (cs = None \<or> cs = Some ''fees'' \<longrightarrow> (\<exists>sec3. scan_line cs raw3 = Inr (sec3, []))) \<and>
   ((sec = ''credit'' \<or> sec = ''debit'') \<and> \<not> keyword_line (strip raw) \<and>
    re_match tx_re (strip raw) = Some gs \<and> parse_amount (gs ! 3) = Inr a \<and>
    parse_date (gs ! 0) = Some pd \<and> parse_date (gs ! 1) = Some td \<longrightarrow>
      scan_line (Some sec) raw =
        Inr (Some sec, [\<lparr>posted_date = pd, transaction_date = td, description = strip (gs ! 2),
                         amount = a, transaction_type = sec\<rparr>]))"
proof -
  have ty: "\<forall>tx\<in>set txs. transaction_type tx = s"
    if "scan_line (Some s) r = Inr (sc, txs)" for s r sc txs
  proof (cases "keyword_line (strip r)")
    case True
    with scan_line_keyword [OF True, of "Some s"] that show ?thesis by auto
  next
    case False
    with that show ?thesis
      by (auto simp: scan_line_plain split: option.splits if_splits sum.splits)
  qed
  have none: "\<exists>sec3. scan_line cs raw3 = Inr (sec3, [])" if "cs = None \<or> cs = Some ''fees''"
  proof (cases "keyword_line (strip raw3)")
    case True
    then show ?thesis by (rule scan_line_keyword)
  next
    case False
    with that show ?thesis by (auto simp: scan_line_plain)
  qed
  have pos: "scan_line (Some sec) raw =
        Inr (Some sec, [\<lparr>posted_date = pd, transaction_date = td, description = strip (gs ! 2),
                         amount = a, transaction_type = sec\<rparr>])"
    if "sec = ''credit'' \<or> sec = ''debit''" "\<not> keyword_line (strip raw)"
       "re_match tx_re (strip raw) = Some gs" "parse_amount (gs ! 3) = Inr a"
       "parse_date (gs ! 0) = Some pd" "parse_date (gs ! 1) = Some td"
    using that by (auto simp: scan_line_plain)
  from ty none pos show ?thesis by blast
qed

theorem section_decides_type_witness:
  "scan_line (Some ''credit'') ''03/05/2024 03/04/2024 PAYMENT THANK YOU $100.00'' =
     Inr (Some ''credit'',
          [\<lparr>posted_date = \<lparr>year = 2024, month = 3, day = 5\<rparr>,
            transaction_date = \<lparr>year = 2024, month = 3, day = 4\<rparr>,
            description = ''PAYMENT THANK YOU'', amount = Fin 100,
            transaction_type = ''credit''\<rparr>]) \<and>
   scan_line (Some ''debit'') ''03/05/2024 03/04/2024 PAYMENT THANK YOU $100.00'' =
     Inr (Some ''debit'',
          [\<lparr>posted_date = \<lparr>year = 2024, month = 3, day = 5\<rparr>,
            transaction_date = \<lparr>year = 2024, month = 3, day = 4\<rparr>,
            description = ''PAYMENT THANK YOU'', amount = Fin 100,
            transaction_type = ''debit''\<rparr>]) \<and>
   (\<exists>sec3. scan_line (Some ''fees'') ''03/05/2024 03/04/2024 PAYMENT THANK YOU $100.00'' = Inr (sec3, [])) \<and>
   \<not> keyword_line (strip ''03/05/2024 03/04/2024 PAYMENT THANK YOU $100.00'') \<and>
   re_match tx_re (strip ''03/05/2024 03/04/2024 PAYMENT THANK YOU $100.00'') =
     Some [''03/05/2024'', ''03/04/2024'', ''PAYMENT THANK YOU'', ''100.00''] \<and>
   parse_amount ''100.00'' = Inr (Fin 100) \<and>
   parse_date ''03/05/2024'' = Some \<lparr>year = 2024, month = 3, day = 5\<rparr> \<and>
   parse_date ''03/04/2024'' = Some \<lparr>year = 2024, month = 3, day = 4\<rparr>"
proof -
  let ?l = "''03/05/2024 03/04/2024 PAYMENT THANK YOU $100.00''"
  let ?tx = "\<lambda>ty. \<lparr>posted_date = \<lparr>year = 2024, month = 3, day = 5\<rparr>,
            transaction_date = \<lparr>year = 2024, month = 3, day = 4\<rparr>,
            description = ''PAYMENT THANK YOU'', amount = Fin 100,
            transaction_type = ty\<rparr>"
  have st: "strip ?l = ?l"
    by (simp add: strip_def class_defs)
  have kw: "\<not> keyword_line (strip ?l)"
    by (simp add: st keyword_line_def)
  have m: "re_match tx_re (strip ?l) = Some [''03/05/2024'', ''03/04/2024'', ''PAYMENT THANK YOU'', ''100.00'']"
    by (simp add: st re_defs class_defs)
  have a: "parse_amount ([''03/05/2024'', ''03/04/2024'', ''PAYMENT THANK YOU'', ''100.00''] ! 3) = Inr (Fin 100)"
    by (simp add: float_defs class_defs)
  have d1: "parse_date ([''03/05/2024'', ''03/04/2024'', ''PAYMENT THANK YOU'', ''100.00''] ! 0) =
      Some \<lparr>year = 2024, month = 3, day = 5\<rparr>"
    by (simp add: date_defs strip_def class_defs nat_of_digits_def digit_val_def)
  have d2: "parse_date ([''03/05/2024'', ''03/04/2024'', ''PAYMENT THANK YOU'', ''100.00''] ! 1) =
      Some \<lparr>year = 2024, month = 3, day = 4\<rparr>"
    by (simp add: date_defs strip_def class_defs nat_of_digits_def digit_val_def)
  have ds: "strip ''PAYMENT THANK YOU'' = ''PAYMENT THANK YOU''"
    by (simp add: strip_def class_defs)
  have c: "scan_line (Some ''credit'') ?l = Inr (Some ''credit'', [?tx ''credit''])"
    using kw m a d1 d2 by (simp add: scan_line_plain ds)
  have d: "scan_line (Some ''debit'') ?l = Inr (Some ''debit'', [?tx ''debit''])"
    using kw m a d1 d2 by (simp add: scan_line_plain ds)
  show ?thesis
    using c d kw m a d1 d2
      section_decides_type [of ?l "Some ''credit''" "[?tx ''credit'']" ?l "Some ''debit''"
        "[?tx ''debit'']" "Some ''fees''" ?l "''credit''" ?l
        "[''03/05/2024'', ''03/04/2024'', ''PAYMENT THANK YOU'', ''100.00'']" "Fin 100"
        "\<lparr>year = 2024, month = 3, day = 5\<rparr>" "\<lparr>year = 2024, month = 3, day = 4\<rparr>"]
    by simp
qed

section \<open>Pages without the marker, and the section at the start of a page\<close>

text \<open>
  C6: a page that does not contain \<^verbatim>\<open>Account Activity\<close> adds no transaction,
  whatever it holds and wherever it stands; a page that contains it is scanned from
  section \<^verbatim>\<open>None\<close>, after whatever pages came before, so no section carries over.
\<close>

theorem page_without_marker:
  "(\<not> contains ''Account Activity'' p \<longrightarrow>
      scan_pages [p] txs = Inr txs \<and>
      scan_pages (ps @ p # qs) txs = scan_pages (ps @ qs) txs \<and>
      (case parse_transactions (f # ps @ p # qs) of Inl e \<Rightarrow> Inl e | Inr (t, s) \<Rightarrow> Inr t) =
      (case parse_transactions (f # ps @ qs) of Inl e \<Rightarrow> Inl e | Inr (t, s) \<Rightarrow> Inr t)) \<and>
   (contains ''Account Activity'' q \<longrightarrow>
      scan_pages (psb @ q # qsb) txsb =
        (case scan_pages psb txsb of
           Inl e \<Rightarrow> Inl e
         | Inr mid \<Rightarrow>
             (case scan_lines None (split_nl q) mid of
                Inl e \<Rightarrow> Inl e
              | Inr out \<Rightarrow> scan_pages qsb out)))"
proof -
  have skip: "scan_pages (ps @ p # qs) txs = scan_pages (ps @ qs) txs"
    if "\<not> contains ''Account Activity'' p" for ps qs txs
    using that by (simp add: scan_pages_append split: sum.splits)
  have one: "scan_pages [p] txs = Inr txs" if "\<not> contains ''Account Activity'' p"
    using that by simp
  have pt: "(case parse_transactions (f # ps @ p # qs) of Inl e \<Rightarrow> Inl e | Inr (t, s) \<Rightarrow> Inr t) =
      (case parse_transactions (f # ps @ qs) of Inl e \<Rightarrow> Inl e | Inr (t, s) \<Rightarrow> Inr t)"
    if np: "\<not> contains ''Account Activity'' p"
  proof -
    have sp: "scan_pages (f # ps @ p # qs) [] = scan_pages (f # ps @ qs) []"
      using skip [OF np, of "f # ps" qs "[]"] by simp
    have ps: "parse_summary (f # ps @ p # qs) = parse_summary (f # ps @ qs)"
      by (simp add: parse_summary_def)
    show ?thesis
      unfolding parse_transactions_def ps sp ..
  qed
  have start: "scan_pages (psb @ q # qsb) txsb =
        (case scan_pages psb txsb of
           Inl e \<Rightarrow> Inl e
         | Inr mid \<Rightarrow>
             (case scan_lines None (split_nl q) mid of
                Inl e \<Rightarrow> Inl e
              | Inr out \<Rightarrow> scan_pages qsb out))"
    if "contains ''Account Activity'' q"
    using that by (simp add: scan_pages_append split: sum.splits)
  from skip one pt start show ?thesis by blast
qed

theorem page_without_marker_witness:
  "\<not> contains ''Account Activity'' ''Purchases and Cash Advances\<newline>04/02/2024 04/01/2024 SHOP 5.00'' \<and>
   contains ''Account Activity'' ''Account Activity\<newline>04/02/2024 04/01/2024 SHOP 5.00'' \<and>
   scan_pages [''Purchases and Cash Advances\<newline>04/02/2024 04/01/2024 SHOP 5.00''] [] = Inr [] \<and>
   scan_pages [''Account Activity\<newline>Purchases and Cash Advances'',
               ''Purchases and Cash Advances\<newline>04/02/2024 04/01/2024 SHOP 5.00'',
               ''Account Activity\<newline>04/02/2024 04/01/2024 SHOP 5.00''] [] =
   scan_pages [''Account Activity\<newline>Purchases and Cash Advances'',
               ''Account Activity\<newline>04/02/2024 04/01/2024 SHOP 5.00''] [] \<and>
   scan_pages [''Account Activity\<newline>Purchases and Cash Advances'',
               ''Account Activity\<newline>04/02/2024 04/01/2024 SHOP 5.00''] [] = Inr []"
proof -
  let ?p = "''Purchases and Cash Advances\<newline>04/02/2024 04/01/2024 SHOP 5.00''"
  let ?f = "''Account Activity\<newline>Purchases and Cash Advances''"
  let ?q = "''Account Activity\<newline>04/02/2024 04/01/2024 SHOP 5.00''"
  have np: "\<not> contains ''Account Activity'' ?p" by simp
  have cq: "contains ''Account Activity'' ?q" by simp
  have l1: "scan_line None ''Account Activity'' = Inr (None, [])"
    by (simp add: scan_line_def strip_def class_defs)
  have l2: "scan_line None ''Purchases and Cash Advances'' = Inr (Some ''debit'', [])"
    by (simp add: scan_line_def strip_def class_defs)
  have l3: "scan_line None ''04/02/2024 04/01/2024 SHOP 5.00'' = Inr (None, [])"
    by (simp add: scan_line_def strip_def class_defs)
  have f: "scan_pages [?f] [] = Inr []"
    by (simp add: l1 l2)
  have q: "scan_lines None (split_nl ?q) [] = Inr []"
    by (simp add: l1 l3)
  note w = page_without_marker [where p = ?p and txs = "[]" and ps = "[?f]" and qs = "[?q]"
      and f = ?f and q = ?q and psb = "[?f]" and qsb = "[]" and txsb = "[]"]
  from w np have a: "scan_pages [?p] [] = Inr []" and b: "scan_pages ([?f] @ ?p # [?q]) [] = scan_pages ([?f] @ [?q]) []"
    by blast+
  from w cq have c: "scan_pages ([?f] @ ?q # []) [] =
        (case scan_pages [?f] [] of
           Inl e \<Rightarrow> Inl e
         | Inr mid \<Rightarrow>
             (case scan_lines None (split_nl ?q) mid of
                Inl e \<Rightarrow> Inl e
              | Inr out \<Rightarrow> scan_pages [] out))"
    by blast
  have c': "scan_pages [?f, ?q] [] = Inr []"
    using c unfolding f by (simp only: q append.simps sum.case scan_pages.simps)
  from np cq a b c' show ?thesis
    by (simp only: append.simps simp_thms)
qed

end
